theory Spec2Isabelle
  imports Complex_Main "HOL-Library.Word" "HOL-Library.Sublist"
begin

section \<open>The intern tracker: data model of the tracker view (variant A)\<close>

text \<open>
  The tracker page keeps its roster in a React state cell \<open>interns\<close> holding an array of
  \<open>Intern\<close> objects. Every handler replaces the array by \<open>prev.map(...)\<close>, so a handler is a
  function from the old array to the new one.

  JavaScript strings are modelled as \<open>string\<close>: a character stands for a UTF-16 code unit
  below 256. JavaScript numbers that only ever hold integers (\<open>speakersCount\<close>,
  \<open>speakersTarget\<close>, \<open>page\<close>, \<open>pageSize\<close>, \<open>score\<close>) are \<open>int\<close>; a number that arrives from a
  numeric text box or from \<open>Math.random()\<close> is a finite \<open>real\<close> (every finite double is one).
  A division is the one place where the code can leave the finite numbers, and its
  result is an \<open>option\<close>; \<open>NaN\<close> and the infinities as inputs are outside the model.
\<close>

datatype StatusActivity = Active | Inactive | Leave
datatype YesNo = Yes | No
datatype Performance = Good | Weak
datatype Segregation = Resign | Warning | Terminated | Relocated
datatype SheetStatus = Green | Red | Black

record Intern =
  ident :: string
  name :: string
  email :: string
  statusActivity :: StatusActivity
  excelSubmitted :: YesNo
  aiChatAdded :: bool
  dataMiningGC :: bool
  speakersCount :: int
  speakersTarget :: int
  performance :: Performance
  segregation :: "Segregation option"
  sheetStatus :: SheetStatus
  dataRepurposed :: YesNo

subsection \<open>Inline edits\<close>

text \<open>Every setter has the shape \<open>prev.map((p) => (p.id === id ? {...p, f: v} : p))\<close>.\<close>

definition toggleAiChat :: "string \<Rightarrow> Intern list \<Rightarrow> Intern list" where
  "toggleAiChat i prev =
     map (\<lambda>p. if ident p = i then p\<lparr>aiChatAdded := \<not> aiChatAdded p\<rparr> else p) prev"

definition toggleDataMining :: "string \<Rightarrow> Intern list \<Rightarrow> Intern list" where
  "toggleDataMining i prev =
     map (\<lambda>p. if ident p = i then p\<lparr>dataMiningGC := \<not> dataMiningGC p\<rparr> else p) prev"

text \<open>
  \<open>updateSpeakers\<close>: the body of the arrow function given to \<open>map\<close>, for a record whose id
  matched. \<open>!updated.segregation\<close> holds exactly for \<open>null\<close>.
\<close>

definition updateSpeakers_one :: "real \<Rightarrow> Intern \<Rightarrow> Intern" where
  "updateSpeakers_one count p =
     (let updated = p\<lparr>speakersCount := max 0 (min 1000 \<lfloor>count\<rfloor>)\<rparr> in
      if speakersCount updated \<ge> speakersTarget updated \<and>
         (segregation updated = None \<or>
          (segregation updated \<noteq> Some Terminated \<and> segregation updated \<noteq> Some Relocated))
      then updated\<lparr>sheetStatus := Green\<rparr>
      else updated)"

definition updateSpeakers :: "string \<Rightarrow> real \<Rightarrow> Intern list \<Rightarrow> Intern list" where
  "updateSpeakers i count prev =
     map (\<lambda>p. if ident p \<noteq> i then p else updateSpeakers_one count p) prev"

definition setSheetStatus :: "string \<Rightarrow> SheetStatus \<Rightarrow> Intern list \<Rightarrow> Intern list" where
  "setSheetStatus i status prev =
     map (\<lambda>p. if ident p = i then p\<lparr>sheetStatus := status\<rparr> else p) prev"

definition setStatusActivity :: "string \<Rightarrow> StatusActivity \<Rightarrow> Intern list \<Rightarrow> Intern list" where
  "setStatusActivity i s prev =
     map (\<lambda>p. if ident p = i then p\<lparr>statusActivity := s\<rparr> else p) prev"

definition setExcelSubmitted :: "string \<Rightarrow> YesNo \<Rightarrow> Intern list \<Rightarrow> Intern list" where
  "setExcelSubmitted i v prev =
     map (\<lambda>p. if ident p = i then p\<lparr>excelSubmitted := v\<rparr> else p) prev"

definition setDataRepurposed :: "string \<Rightarrow> YesNo \<Rightarrow> Intern list \<Rightarrow> Intern list" where
  "setDataRepurposed i v prev =
     map (\<lambda>p. if ident p = i then p\<lparr>dataRepurposed := v\<rparr> else p) prev"

definition setPerformance :: "string \<Rightarrow> Performance \<Rightarrow> Intern list \<Rightarrow> Intern list" where
  "setPerformance i v prev =
     map (\<lambda>p. if ident p = i then p\<lparr>performance := v\<rparr> else p) prev"

definition setSegregation_one :: "Segregation option \<Rightarrow> Intern \<Rightarrow> Intern" where
  "setSegregation_one v p =
     (let updated = p\<lparr>segregation := v\<rparr> in
      if v = Some Terminated \<or> v = Some Relocated
      then updated\<lparr>sheetStatus := Black\<rparr>
      else updated)"

definition setSegregation :: "string \<Rightarrow> Segregation option \<Rightarrow> Intern list \<Rightarrow> Intern list" where
  "setSegregation i v prev =
     map (\<lambda>p. if ident p \<noteq> i then p else setSegregation_one v p) prev"

definition setName :: "string \<Rightarrow> string \<Rightarrow> Intern list \<Rightarrow> Intern list" where
  "setName i n prev = map (\<lambda>p. if ident p = i then p\<lparr>name := n\<rparr> else p) prev"

definition setEmail :: "string \<Rightarrow> string \<Rightarrow> Intern list \<Rightarrow> Intern list" where
  "setEmail i e prev = map (\<lambda>p. if ident p = i then p\<lparr>email := e\<rparr> else p) prev"

text \<open>A record used in the concrete evaluations below.\<close>

definition sampleIntern :: Intern where
  "sampleIntern =
     \<lparr>ident = ''1700000000000-0'', name = ''Ava'', email = ''ava@example.com'',
      statusActivity = Active, excelSubmitted = Yes, aiChatAdded = True,
      dataMiningGC = False, speakersCount = 50, speakersTarget = 100,
      performance = Weak, segregation = None, sheetStatus = Red, dataRepurposed = No\<rparr>"


subsection \<open>Numbers and strings of the JavaScript runtime\<close>

text \<open>
  \<open>String(n)\<close> and a template literal print an integer of magnitude below \<open>10^21\<close> in
  decimal, with a leading minus sign when it is negative.
\<close>

function decimal :: "nat \<Rightarrow> string" where
  "decimal n =
     (if n < 10 then [''0123456789'' ! n]
      else decimal (n div 10) @ [''0123456789'' ! (n mod 10)])"
  by pat_completeness auto
termination
  by (relation "measure (\<lambda>n. n)") auto

declare decimal.simps [simp del]

definition String_int :: "int \<Rightarrow> string" where
  "String_int i = (if i < 0 then CHR ''-'' # decimal (nat (- i)) else decimal (nat i))"

text \<open>The literal types of TypeScript are the strings that spell their constructors.\<close>

fun StatusActivity_str :: "StatusActivity \<Rightarrow> string" where
  "StatusActivity_str Active = ''Active''"
| "StatusActivity_str Inactive = ''Inactive''"
| "StatusActivity_str Leave = ''Leave''"

fun YesNo_str :: "YesNo \<Rightarrow> string" where
  "YesNo_str Yes = ''Yes''"
| "YesNo_str No = ''No''"

fun Performance_str :: "Performance \<Rightarrow> string" where
  "Performance_str Good = ''Good''"
| "Performance_str Weak = ''Weak''"

fun Segregation_str :: "Segregation \<Rightarrow> string" where
  "Segregation_str Resign = ''Resign''"
| "Segregation_str Warning = ''Warning''"
| "Segregation_str Terminated = ''Terminated''"
| "Segregation_str Relocated = ''Relocated''"

fun SheetStatus_str :: "SheetStatus \<Rightarrow> string" where
  "SheetStatus_str Green = ''Green''"
| "SheetStatus_str Red = ''Red''"
| "SheetStatus_str Black = ''Black''"

text \<open>\<open>r.segregation ?? ""\<close>: the empty string stands in for \<open>null\<close>.\<close>

definition segregation_or_empty :: "Segregation option \<Rightarrow> string" where
  "segregation_or_empty g = (case g of None \<Rightarrow> [] | Some v \<Rightarrow> Segregation_str v)"

subsection \<open>The seed generator\<close>

text \<open>
  \<open>generateSeedInterns\<close> calls \<open>Math.random()\<close> a varying number of times for each row and
  \<open>Date.now()\<close> once. The model reads the draws from a stream \<open>rnd\<close> through a cursor that
  is passed along, and the clock as a function of the loop index. \<open>seedIntern\<close> is one
  iteration of the loop: it returns the row and the cursor after it.

  The draws, the thresholds and the product \<open>Math.random() * 120\<close> are exact reals here,
  where the code has doubles. At a draw next to a threshold, or whose product with 120
  rounds up to an integer, the code and the model can choose differently; this touches
  the values drawn for a seed row (its \<open>speakersCount\<close>, for one) and not the way
  \<open>sheetStatus\<close> is derived from \<open>segregation\<close>, which is the same for every draw.
\<close>

definition seedIntern :: "(nat \<Rightarrow> real) \<Rightarrow> (nat \<Rightarrow> nat) \<Rightarrow> nat \<Rightarrow> nat \<Rightarrow> Intern \<times> nat" where
  "seedIntern rnd clock i k =
     (let statusRand = rnd k;
          statusActivity' = (if statusRand > 0.15 then Active else Inactive);
          excelSubmitted' = (if rnd (k + 1) > 0.35 then Yes else No);
          aiChatAdded' = (rnd (k + 2) > 0.5);
          dataMiningGC' = (rnd (k + 3) > 0.5);
          speakersCount' = \<lfloor>rnd (k + 4) * 120\<rfloor>;
          speakersTarget' = 100;
          (performance', k5) =
            (if speakersCount' > 60 \<and> aiChatAdded' \<and> dataMiningGC' then (Good, k + 5)
             else if rnd (k + 5) > 0.8 then (Good, k + 6)
             else (Weak, k + 6));
          segRand = rnd k5;
          segregation' =
            (if segRand > 0.985 then Some Relocated
             else if segRand > 0.97 then Some Terminated
             else if segRand > 0.95 then Some Warning
             else None);
          (sheetStatus', k7) =
            (if segregation' = Some Terminated \<or> segregation' = Some Relocated
             then (Black, k5 + 1)
             else if excelSubmitted' = Yes \<and> (aiChatAdded' \<or> dataMiningGC')
             then (Green, k5 + 1)
             else (if rnd (k5 + 1) > 0.7 then Red else Green, k5 + 2));
          dataRepurposed' = (if rnd k7 > 0.8 then Yes else No)
      in (\<lparr>ident = decimal (clock i) @ ''-'' @ decimal i, name = [], email = [],
           statusActivity = statusActivity', excelSubmitted = excelSubmitted',
           aiChatAdded = aiChatAdded', dataMiningGC = dataMiningGC',
           speakersCount = speakersCount', speakersTarget = speakersTarget',
           performance = performance', segregation = segregation',
           sheetStatus = sheetStatus', dataRepurposed = dataRepurposed'\<rparr>,
          k7 + 1))"

function seedLoop ::
  "(nat \<Rightarrow> real) \<Rightarrow> (nat \<Rightarrow> nat) \<Rightarrow> nat \<Rightarrow> nat \<Rightarrow> nat \<Rightarrow> Intern list \<Rightarrow> Intern list" where
  "seedLoop rnd clock count i k out =
     (if i < count
      then (case seedIntern rnd clock i k of
              (row, k') \<Rightarrow> seedLoop rnd clock count (i + 1) k' (out @ [row]))
      else out)"
  by pat_completeness auto
termination
  by (relation "measure (\<lambda>(rnd, clock, count, i, k, out). count - i)") auto

declare seedLoop.simps [simp del]

definition generateSeedInterns :: "(nat \<Rightarrow> real) \<Rightarrow> (nat \<Rightarrow> nat) \<Rightarrow> nat \<Rightarrow> Intern list" where
  "generateSeedInterns rnd clock count = seedLoop rnd clock count 0 0 []"

subsection \<open>Stores reachable by inline edits\<close>

datatype Edit =
    SetName string string
  | SetEmail string string
  | SetStatusActivity string StatusActivity
  | SetExcelSubmitted string YesNo
  | ToggleAiChat string
  | ToggleDataMining string
  | UpdateSpeakers string real
  | SetPerformance string Performance
  | SetSegregation string "Segregation option"
  | SetSheetStatus string SheetStatus
  | SetDataRepurposed string YesNo

fun applyEdit :: "Edit \<Rightarrow> Intern list \<Rightarrow> Intern list" where
  "applyEdit (SetName i n) s = setName i n s"
| "applyEdit (SetEmail i e) s = setEmail i e s"
| "applyEdit (SetStatusActivity i v) s = setStatusActivity i v s"
| "applyEdit (SetExcelSubmitted i v) s = setExcelSubmitted i v s"
| "applyEdit (ToggleAiChat i) s = toggleAiChat i s"
| "applyEdit (ToggleDataMining i) s = toggleDataMining i s"
| "applyEdit (UpdateSpeakers i c) s = updateSpeakers i c s"
| "applyEdit (SetPerformance i v) s = setPerformance i v s"
| "applyEdit (SetSegregation i v) s = setSegregation i v s"
| "applyEdit (SetSheetStatus i v) s = setSheetStatus i v s"
| "applyEdit (SetDataRepurposed i v) s = setDataRepurposed i v s"

text \<open>
  \<open>reachableBy ok init s\<close>: the store \<open>s\<close> is obtained from \<open>init\<close> by a finite sequence of
  edits, each of which satisfied \<open>ok\<close> in the store it was applied to.
\<close>

inductive reachableBy ::
  "(Edit \<Rightarrow> Intern list \<Rightarrow> bool) \<Rightarrow> Intern list \<Rightarrow> Intern list \<Rightarrow> bool"
  for ok :: "Edit \<Rightarrow> Intern list \<Rightarrow> bool" and init :: "Intern list" where
  start: "reachableBy ok init init"
| edit: "reachableBy ok init s \<Longrightarrow> ok e s \<Longrightarrow> reachableBy ok init (applyEdit e s)"

definition anyEdit :: "Edit \<Rightarrow> Intern list \<Rightarrow> bool" where
  "anyEdit e s = True"

definition disqualifying :: "Segregation option \<Rightarrow> bool" where
  "disqualifying g = (g = Some Terminated \<or> g = Some Relocated)"

text \<open>
  An edit respects the exits when it is not a direct \<open>setSheetStatus\<close>, or sets Black, or
  its id matches no terminated or relocated row.
\<close>

fun respectsExit :: "Edit \<Rightarrow> Intern list \<Rightarrow> bool" where
  "respectsExit (SetSheetStatus i v) s =
     (v = Black \<or> list_all (\<lambda>p. ident p \<noteq> i \<or> \<not> disqualifying (segregation p)) s)"
| "respectsExit _ s = True"

definition exitsAreBlack :: "Intern list \<Rightarrow> bool" where
  "exitsAreBlack s = list_all (\<lambda>p. \<not> disqualifying (segregation p) \<or> sheetStatus p = Black) s"

text \<open>A stream whose every draw is 0.98, and a clock that stands still.\<close>

definition rnd98 :: "nat \<Rightarrow> real" where
  "rnd98 k = 98 / 100"

definition clock0 :: "nat \<Rightarrow> nat" where
  "clock0 i = 1700000000000"

subsection \<open>Filtering and search\<close>

text \<open>
  In the range of code units below 256, \<open>String.prototype.trim\<close> strips the code units
  9 to 13, 32 and 160, and \<open>toLowerCase\<close> adds 32 to the letters \<open>A\<close> to \<open>Z\<close> and to the
  code units 192 to 222 other than 215, one character at a time.
\<close>

definition isWhiteSpace :: "char \<Rightarrow> bool" where
  "isWhiteSpace c =
     (let n = (of_char c :: nat) in (9 \<le> n \<and> n \<le> 13) \<or> n = 32 \<or> n = 160)"

definition trim :: "string \<Rightarrow> string" where
  "trim s = rev (dropWhile isWhiteSpace (rev (dropWhile isWhiteSpace s)))"

definition toLowerChar :: "char \<Rightarrow> char" where
  "toLowerChar c =
     (let n = (of_char c :: nat) in
      if (65 \<le> n \<and> n \<le> 90) \<or> (192 \<le> n \<and> n \<le> 222 \<and> n \<noteq> 215)
      then char_of (n + 32) else c)"

definition toLowerCase :: "string \<Rightarrow> string" where
  "toLowerCase s = map toLowerChar s"

text \<open>\<open>s.includes(q)\<close>: \<open>q\<close> starts at some position of \<open>s\<close>.\<close>

fun includes_js :: "string \<Rightarrow> string \<Rightarrow> bool" where
  "includes_js [] q = (q = [])"
| "includes_js (c # s) q = (take (length q) (c # s) = q \<or> includes_js s q)"

text \<open>The third \<open>.filter\<close> callback of the tracker view.\<close>

definition matchesSearch :: "string \<Rightarrow> Intern \<Rightarrow> bool" where
  "matchesSearch search i =
     (let q = toLowerCase (trim search) in
      if q = [] then True
      else includes_js (toLowerCase (name i)) q \<or>
           includes_js (toLowerCase (email i)) q \<or>
           includes_js (toLowerCase (segregation_or_empty (segregation i))) q)"

text \<open>
  The three chained \<open>.filter\<close> calls of \<open>filtered\<close>, before its \<open>.sort\<close>. The selections
  \<open>filterSheet\<close> and \<open>filterPerf\<close> are strings, compared with the row's literal by \<open>===\<close>.
\<close>

definition filtered_presort :: "string \<Rightarrow> string \<Rightarrow> string \<Rightarrow> Intern list \<Rightarrow> Intern list" where
  "filtered_presort search filterSheet filterPerf interns =
     filter (matchesSearch search)
       (filter (\<lambda>i. if filterPerf = ''All'' then True
                    else Performance_str (performance i) = filterPerf)
          (filter (\<lambda>i. if filterSheet = ''All'' then True
                       else SheetStatus_str (sheetStatus i) = filterSheet)
             interns))"

text \<open>
  The same property in the words of the specification: some contiguous piece of the field
  equals the query up to the case of its letters.
\<close>

definition containsIgnoringCase :: "string \<Rightarrow> string \<Rightarrow> bool" where
  "containsIgnoringCase field q =
     (\<exists>pre u post. field = pre @ u @ post \<and> toLowerCase u = toLowerCase q)"

subsection \<open>Pagination\<close>

text \<open>\<open>Array.prototype.slice(start, end)\<close> on integer arguments.\<close>

definition slice :: "'a list \<Rightarrow> int \<Rightarrow> int \<Rightarrow> 'a list" where
  "slice xs start fin =
     (let len = int (length xs);
          k = (if start < 0 then max (len + start) 0 else min start len);
          final = (if fin < 0 then max (len + fin) 0 else min fin len)
      in take (nat (final - k)) (drop (nat k) xs))"

text \<open>
  The quotient of two finite numbers is a finite number unless the divisor is 0; then it
  is \<open>NaN\<close> or an infinity, and so is everything computed from it. \<open>None\<close> stands for
  these.
\<close>

definition js_divide :: "real \<Rightarrow> real \<Rightarrow> real option" where
  "js_divide a b = (if b = 0 then None else Some (a / b))"

definition totalPages :: "'a list \<Rightarrow> int \<Rightarrow> int option" where
  "totalPages filtered pageSize =
     map_option (\<lambda>q. max 1 \<lceil>q\<rceil>)
       (js_divide (real (length filtered)) (real_of_int pageSize))"

definition paginated :: "'a list \<Rightarrow> int \<Rightarrow> int \<Rightarrow> 'a list" where
  "paginated filtered page pageSize =
     (let start = (page - 1) * pageSize in slice filtered start (start + pageSize))"

text \<open>
  The view state that pagination reads, and its three controls: the Prev and Next buttons
  and the rows-per-page select, whose handler receives the chosen number. The handler of
  Next closes over the number of pages of the current render, its first argument here.
\<close>

record Paging =
  page :: int
  pageSize :: int

definition prevPage :: "Paging \<Rightarrow> Paging" where
  "prevPage st = st\<lparr>page := max 1 (page st - 1)\<rparr>"

definition nextPage :: "int \<Rightarrow> Paging \<Rightarrow> Paging" where
  "nextPage totalPages_now st = st\<lparr>page := min totalPages_now (page st + 1)\<rparr>"

definition changePageSize :: "int \<Rightarrow> Paging \<Rightarrow> Paging" where
  "changePageSize v st = st\<lparr>pageSize := v, page := 1\<rparr>"

subsection \<open>CSV export\<close>

text \<open>
  \<open>x.replaceAll(c, rep)\<close> for a pattern of one character, \<open>Array.prototype.join\<close>, and the
  text that \<open>exportToCsv\<close> hands to the download.
\<close>

primrec replaceAll :: "char \<Rightarrow> string \<Rightarrow> string \<Rightarrow> string" where
  "replaceAll c rep [] = []"
| "replaceAll c rep (x # xs) = (if x = c then rep else [x]) @ replaceAll c rep xs"

fun join :: "string \<Rightarrow> string list \<Rightarrow> string" where
  "join sep [] = []"
| "join sep [x] = x"
| "join sep (x # y # ys) = x @ sep @ join sep (y # ys)"

definition dquote :: char where
  "dquote = CHR 0x22"

definition newline :: char where
  "newline = CHR 0x0A"

definition csvCell :: "string \<Rightarrow> string" where
  "csvCell x = [dquote] @ replaceAll dquote [dquote, dquote] x @ [dquote]"

definition csvText :: "string list list \<Rightarrow> string" where
  "csvText table = join [newline] (map (\<lambda>r. join '','' (map csvCell r)) table)"

definition header :: "string list" where
  "header = [''Name'', ''Email'', ''Status'', ''ExcelSubmitted'', ''AIChatAdded'',
     ''DataMiningGC'', ''SpeakersCount'', ''Performance'', ''Segregation'',
     ''SheetStatus'', ''DataRepurposed'']"

definition bodyRow :: "Intern \<Rightarrow> string list" where
  "bodyRow r =
     [name r, email r, StatusActivity_str (statusActivity r),
      YesNo_str (excelSubmitted r),
      (if aiChatAdded r then ''Yes'' else ''No''),
      (if dataMiningGC r then ''Yes'' else ''No''),
      String_int (speakersCount r),
      Performance_str (performance r),
      segregation_or_empty (segregation r),
      SheetStatus_str (sheetStatus r),
      YesNo_str (dataRepurposed r)]"

definition exportToCsv :: "Intern list \<Rightarrow> string" where
  "exportToCsv rows = csvText (header # map bodyRow rows)"

subsection \<open>Avatar hue\<close>

unbundle bit_operations_syntax

text \<open>
  \<open>hash << 5\<close> converts \<open>hash\<close> to a signed 32-bit integer, shifts it and reads the result
  as a signed 32-bit integer again; the subtraction and the addition around it are on
  numbers and do not wrap.
\<close>

definition shl5 :: "int \<Rightarrow> int" where
  "shl5 h = sint (push_bit 5 (word_of_int h :: 32 word))"

text \<open>\<open>str.charCodeAt(i)\<close> for an index below the length, the only use the loop makes of it.\<close>

definition charCodeAt :: "string \<Rightarrow> nat \<Rightarrow> int" where
  "charCodeAt str i = int (of_char (str ! i))"

function hashLoop :: "string \<Rightarrow> nat \<Rightarrow> int \<Rightarrow> int" where
  "hashLoop str i hash =
     (if i < length str
      then hashLoop str (i + 1) (charCodeAt str i + (shl5 hash - hash))
      else hash)"
  by pat_completeness auto
termination
  by (relation "measure (\<lambda>(str, i, hash). length str - i)") auto

declare hashLoop.simps [simp del]

text \<open>
  The remainder operator \<open>%\<close> takes the sign of the dividend. Both views define
  \<open>stringToHue\<close> alike; the tracker view reads \<open>(str || "").length\<close>, which is the length
  of \<open>str\<close> for a string.
\<close>

definition js_rem :: "int \<Rightarrow> int \<Rightarrow> int" where
  "js_rem a b = sgn a * (\<bar>a\<bar> mod \<bar>b\<bar>)"

definition stringToHue :: "string \<Rightarrow> int" where
  "stringToHue str = js_rem \<bar>hashLoop str 0 0\<bar> 360"

text \<open>Wrapping an integer into the signed 32-bit range, in integer arithmetic.\<close>

definition wrap32 :: "int \<Rightarrow> int" where
  "wrap32 x = (x + 2 ^ 31) mod 2 ^ 32 - 2 ^ 31"

section \<open>The directory view (variant B)\<close>

datatype Status = Active_B | Offer | Completed | Offboarded

fun Status_str :: "Status \<Rightarrow> string" where
  "Status_str Active_B = ''Active''"
| "Status_str Offer = ''Offer''"
| "Status_str Completed = ''Completed''"
| "Status_str Offboarded = ''Offboarded''"

record Intern_B =
  ident_B :: string
  name_B :: string
  email_B :: string
  department :: string
  mentor :: string
  startDate :: string
  status :: Status
  score :: int

definition matchesSearch_B :: "string \<Rightarrow> Intern_B \<Rightarrow> bool" where
  "matchesSearch_B search i =
     (let q = toLowerCase (trim search) in
      if q = [] then True
      else includes_js (toLowerCase (name_B i)) q \<or>
           includes_js (toLowerCase (email_B i)) q \<or>
           includes_js (toLowerCase (mentor i)) q \<or>
           includes_js (toLowerCase (department i)) q)"

definition filtered_presort_B ::
  "string \<Rightarrow> string \<Rightarrow> string \<Rightarrow> Intern_B list \<Rightarrow> Intern_B list" where
  "filtered_presort_B search dept statusSel interns =
     filter (matchesSearch_B search)
       (filter (\<lambda>i. if statusSel = ''All'' then True else Status_str (status i) = statusSel)
          (filter (\<lambda>i. if dept = ''All'' then True else department i = dept) interns))"

definition header_B :: "string list" where
  "header_B = [''Name'', ''Email'', ''Department'', ''Mentor'', ''Start Date'', ''Status'',
     ''Score'']"

definition bodyRow_B :: "Intern_B \<Rightarrow> string list" where
  "bodyRow_B r =
     [name_B r, email_B r, department r, mentor r, startDate r, Status_str (status r),
      String_int (score r)]"

definition exportToCsv_B :: "Intern_B list \<Rightarrow> string" where
  "exportToCsv_B rows = csvText (header_B # map bodyRow_B rows)"

subsection \<open>Summary\<close>

text \<open>\<open>Math.round\<close> rounds to the nearest integer, a tie towards plus infinity.\<close>

definition Math_round :: "real \<Rightarrow> int" where
  "Math_round x = \<lfloor>x + 1 / 2\<rfloor>"

record Stats =
  active :: nat
  offers :: nat
  completed :: nat
  avgScore :: "int option"

definition stats :: "Intern_B list \<Rightarrow> Stats" where
  "stats interns =
     \<lparr>active = length (filter (\<lambda>i. status i = Active_B) interns),
      offers = length (filter (\<lambda>i. status i = Offer) interns),
      completed = length (filter (\<lambda>i. status i = Completed) interns),
      avgScore =
        (if length interns \<noteq> 0
         then map_option Math_round
                (js_divide (real_of_int (foldl (\<lambda>s i. s + score i) 0 interns))
                   (real (length interns)))
         else Some 0)\<rparr>"

subsection \<open>Adding an intern\<close>

text \<open>
  The dialog's form is an \<open>Intern\<close> without its id. \<open>addIntern\<close> reads the form, draws an
  id (\<open>Math.random().toString(36).slice(2, 9)\<close>, here the argument \<open>newId\<close>) and reads the
  date of the day for the form it leaves behind (the argument \<open>today\<close>).
\<close>

record Form =
  name_F :: string
  email_F :: string
  department_F :: string
  mentor_F :: string
  startDate_F :: string
  status_F :: Status
  score_F :: int

record Page_B =
  interns :: "Intern_B list"
  dialogOpen :: bool
  form :: Form

definition departments :: "string list" where
  "departments = [''Engineering'', ''Design'', ''Marketing'', ''Product'', ''HR'']"

definition blankForm :: "string \<Rightarrow> Form" where
  "blankForm today =
     \<lparr>name_F = [], email_F = [], department_F = hd departments, mentor_F = [],
      startDate_F = today, status_F = Active_B, score_F = 80\<rparr>"

definition withId :: "string \<Rightarrow> Form \<Rightarrow> Intern_B" where
  "withId i f =
     \<lparr>ident_B = i, name_B = name_F f, email_B = email_F f, department = department_F f,
      mentor = mentor_F f, startDate = startDate_F f, status = status_F f,
      score = score_F f\<rparr>"

definition addIntern :: "string \<Rightarrow> string \<Rightarrow> Page_B \<Rightarrow> Page_B" where
  "addIntern newId today st =
     (if name_F (form st) = [] \<or> email_F (form st) = [] then st
      else st\<lparr>interns := withId newId (form st) # interns st,
              dialogOpen := False,
              form := blankForm today\<rparr>)"

subsection \<open>The filters in the words of the specification\<close>

text \<open>
  A row satisfies the filter state when it agrees with every selection other than
  \<open>All\<close> and, when the trimmed query is not empty, one of the searched fields contains
  the query up to case.
\<close>

definition satisfiesFilters :: "string \<Rightarrow> string \<Rightarrow> string \<Rightarrow> Intern \<Rightarrow> bool" where
  "satisfiesFilters search filterSheet filterPerf r =
     ((filterSheet \<noteq> ''All'' \<longrightarrow> SheetStatus_str (sheetStatus r) = filterSheet) \<and>
      (filterPerf \<noteq> ''All'' \<longrightarrow> Performance_str (performance r) = filterPerf) \<and>
      (trim search \<noteq> [] \<longrightarrow>
         containsIgnoringCase (name r) (trim search) \<or>
         containsIgnoringCase (email r) (trim search) \<or>
         containsIgnoringCase (segregation_or_empty (segregation r)) (trim search)))"

definition satisfiesFilters_B :: "string \<Rightarrow> string \<Rightarrow> string \<Rightarrow> Intern_B \<Rightarrow> bool" where
  "satisfiesFilters_B search dept statusSel r =
     ((dept \<noteq> ''All'' \<longrightarrow> department r = dept) \<and>
      (statusSel \<noteq> ''All'' \<longrightarrow> Status_str (status r) = statusSel) \<and>
      (trim search \<noteq> [] \<longrightarrow>
         containsIgnoringCase (name_B r) (trim search) \<or>
         containsIgnoringCase (email_B r) (trim search) \<or>
         containsIgnoringCase (mentor r) (trim search) \<or>
         containsIgnoringCase (department r) (trim search)))"

subsection \<open>Sample data\<close>

text \<open>
  Three tracker rows, and the four rows the directory view starts from (\<open>seedInterns\<close>),
  whose start dates are computed from the date of the day.
\<close>

definition sampleRoster :: "Intern list" where
  "sampleRoster =
     [sampleIntern,
      sampleIntern\<lparr>ident := ''1700000000000-1'', name := ''Bob'', email := ''bob@example.com''\<rparr>,
      sampleIntern\<lparr>ident := ''1700000000000-2'', name := ''Dave'', email := ''dave@example.com'',
        performance := Good\<rparr>]"

definition seedInterns :: "string \<Rightarrow> string \<Rightarrow> string \<Rightarrow> string \<Rightarrow> Intern_B list" where
  "seedInterns today minus30 minus90 minus7 =
     [\<lparr>ident_B = ''1'', name_B = ''Ava Patel'', email_B = ''ava.patel@example.com'',
       department = ''Engineering'', mentor = ''M. Nguyen'', startDate = today,
       status = Active_B, score = 92\<rparr>,
      \<lparr>ident_B = ''2'', name_B = ''Liam Johnson'', email_B = ''liam.johnson@example.com'',
       department = ''Design'', mentor = ''S. Kaur'', startDate = minus30,
       status = Active_B, score = 81\<rparr>,
      \<lparr>ident_B = ''3'', name_B = ''Maya Chen'', email_B = ''maya.chen@example.com'',
       department = ''Marketing'', mentor = ''R. Davis'', startDate = minus90,
       status = Completed, score = 88\<rparr>,
      \<lparr>ident_B = ''4'', name_B = ''Ethan Garc'' @ [CHR 0xED] @ ''a'',
       email_B = ''ethan.garcia@example.com'',
       department = ''Engineering'', mentor = ''K. Brown'', startDate = minus7,
       status = Offer, score = 75\<rparr>]"

definition sampleInterns_B :: "Intern_B list" where
  "sampleInterns_B = seedInterns ''2024-05-01'' ''2024-04-01'' ''2024-02-01'' ''2024-04-24''"

subsection \<open>The CSV document in the words of the specification\<close>

text \<open>
  A field is wrapped in double quotes, each double quote inside it written twice; a line
  is the fields of a row, in the fixed column order, separated by commas.
\<close>

definition quoted :: "string \<Rightarrow> string" where
  "quoted v =
     [dquote] @ concat (map (\<lambda>c. if c = dquote then [dquote, dquote] else [c]) v) @ [dquote]"

definition headerLine :: string where
  "headerLine =
     quoted ''Name'' @ '','' @ quoted ''Email'' @ '','' @ quoted ''Status'' @ '','' @
     quoted ''ExcelSubmitted'' @ '','' @ quoted ''AIChatAdded'' @ '','' @
     quoted ''DataMiningGC'' @ '','' @ quoted ''SpeakersCount'' @ '','' @
     quoted ''Performance'' @ '','' @ quoted ''Segregation'' @ '','' @
     quoted ''SheetStatus'' @ '','' @ quoted ''DataRepurposed''"

definition rowLine :: "Intern \<Rightarrow> string" where
  "rowLine r =
     quoted (name r) @ '','' @ quoted (email r) @ '','' @
     quoted (StatusActivity_str (statusActivity r)) @ '','' @
     quoted (YesNo_str (excelSubmitted r)) @ '','' @
     quoted (if aiChatAdded r then ''Yes'' else ''No'') @ '','' @
     quoted (if dataMiningGC r then ''Yes'' else ''No'') @ '','' @
     quoted (String_int (speakersCount r)) @ '','' @
     quoted (Performance_str (performance r)) @ '','' @
     quoted (case segregation r of None \<Rightarrow> [] | Some g \<Rightarrow> Segregation_str g) @ '','' @
     quoted (SheetStatus_str (sheetStatus r)) @ '','' @
     quoted (YesNo_str (dataRepurposed r))"

definition headerLine_B :: string where
  "headerLine_B =
     quoted ''Name'' @ '','' @ quoted ''Email'' @ '','' @ quoted ''Department'' @ '','' @
     quoted ''Mentor'' @ '','' @ quoted ''Start Date'' @ '','' @ quoted ''Status'' @ '','' @
     quoted ''Score''"

definition rowLine_B :: "Intern_B \<Rightarrow> string" where
  "rowLine_B r =
     quoted (name_B r) @ '','' @ quoted (email_B r) @ '','' @ quoted (department r) @ '','' @
     quoted (mentor r) @ '','' @ quoted (startDate r) @ '','' @
     quoted (Status_str (status r)) @ '','' @ quoted (String_int (score r))"

text \<open>The directory page with a filled form, for the concrete evaluations.\<close>

definition samplePage_B :: Page_B where
  "samplePage_B =
     \<lparr>interns = sampleInterns_B, dialogOpen = True,
      form = \<lparr>name_F = ''Noah Kim'', email_F = ''noah.kim@example.com'',
        department_F = ''Product'', mentor_F = ''T. Ito'', startDate_F = ''2024-05-02'',
        status_F = Offer, score_F = 70\<rparr>\<rparr>"

section \<open>Properties of the tracker view\<close>

subsection \<open>Speaker count and segregation edits\<close>

lemma updateSpeakers_one_eq:
  "updateSpeakers_one c p =
     p\<lparr>speakersCount := max 0 (min 1000 \<lfloor>c\<rfloor>),
       sheetStatus :=
         (if speakersTarget p \<le> max 0 (min 1000 \<lfloor>c\<rfloor>) \<and> segregation p \<noteq> Some Terminated \<and>
             segregation p \<noteq> Some Relocated
          then Green else sheetStatus p)\<rparr>"
  by (cases "segregation p") (simp_all add: updateSpeakers_one_def Let_def)

lemma updateSpeakers_nth:
  "k < length store \<Longrightarrow>
   updateSpeakers i c store ! k =
     (if ident (store ! k) \<noteq> i then store ! k else updateSpeakers_one c (store ! k))"
  by (simp add: updateSpeakers_def)

lemma clamp_of_integer:
  "real_of_int \<lfloor>c\<rfloor> = c \<Longrightarrow> real_of_int (max 0 (min 1000 \<lfloor>c\<rfloor>)) = max 0 (min 1000 c)"
  by (metis of_int_0 of_int_max of_int_min of_int_numeral)

text \<open>
  Claim C1, as stated, says that \<open>updateSpeakers(id, c)\<close> stores \<open>c\<close> clamped to [0, 1000].
  The code stores \<open>Math.floor(c)\<close> clamped: for the input 50.5 the row holds 50, which is
  not 50.5.
\<close>

theorem updateSpeakers_value_counterexample:
  "real_of_int (speakersCount (updateSpeakers ''1700000000000-0'' (101 / 2) [sampleIntern] ! 0))
     \<noteq> max 0 (min 1000 (101 / 2))"
  by (simp add: updateSpeakers_def updateSpeakers_one_def sampleIntern_def)

text \<open>
  Claim C1, amended: for every store, id and finite number \<open>c\<close>, \<open>updateSpeakers(id, c)\<close>
  keeps the length of the store and every row whose id differs; in a row whose id matches
  it sets \<open>speakersCount\<close> to \<open>floor(c)\<close> clamped to [0, 1000] (which is \<open>c\<close> clamped when \<open>c\<close>
  is an integer), sets \<open>sheetStatus\<close> to Green when that value reaches \<open>speakersTarget\<close>
  and the segregation is neither Terminated nor Relocated, whatever the status was, and
  otherwise leaves \<open>sheetStatus\<close> as it was, so a Green row stays Green when its count
  drops. No other field changes.
\<close>

theorem updateSpeakers_floor_clamp:
  assumes "k < length store"
  shows
    "(let p = store ! k;
          p' = updateSpeakers i c store ! k;
          n = max 0 (min 1000 \<lfloor>c\<rfloor>)
      in length (updateSpeakers i c store) = length store \<and>
         (ident p \<noteq> i \<longrightarrow> p' = p) \<and>
         (ident p = i \<longrightarrow>
            p' = p\<lparr>speakersCount := n,
                   sheetStatus :=
                     (if speakersTarget p \<le> n \<and> segregation p \<noteq> Some Terminated \<and>
                         segregation p \<noteq> Some Relocated
                      then Green else sheetStatus p)\<rparr>) \<and>
         (ident p = i \<and> sheetStatus p = Green \<longrightarrow> sheetStatus p' = Green) \<and>
         (real_of_int \<lfloor>c\<rfloor> = c \<longrightarrow> real_of_int n = max 0 (min 1000 c)))"
proof -
  have len: "length (updateSpeakers i c store) = length store"
    by (simp add: updateSpeakers_def)
  have other: "ident (store ! k) \<noteq> i \<Longrightarrow> updateSpeakers i c store ! k = store ! k"
    using assms by (simp add: updateSpeakers_nth)
  have hit: "ident (store ! k) = i \<Longrightarrow>
      updateSpeakers i c store ! k =
        (store ! k)\<lparr>speakersCount := max 0 (min 1000 \<lfloor>c\<rfloor>),
          sheetStatus :=
            (if speakersTarget (store ! k) \<le> max 0 (min 1000 \<lfloor>c\<rfloor>) \<and>
                segregation (store ! k) \<noteq> Some Terminated \<and>
                segregation (store ! k) \<noteq> Some Relocated
             then Green else sheetStatus (store ! k))\<rparr>"
    using assms by (simp only: updateSpeakers_nth updateSpeakers_one_eq) simp
  have green: "ident (store ! k) = i \<Longrightarrow> sheetStatus (store ! k) = Green \<Longrightarrow>
      sheetStatus (updateSpeakers i c store ! k) = Green"
    by (simp add: hit)
  show ?thesis
    unfolding Let_def using len other hit green clamp_of_integer [of c] by blast
qed

text \<open>
  The theorem at the scenario of the specification (count 50, target 100, Red, input 120),
  at a row that was Black by hand, at a Green row whose count drops to 20, and at an id
  that matches no row.
\<close>

theorem updateSpeakers_floor_clamp_witness:
  "updateSpeakers ''1700000000000-0'' 120 [sampleIntern] ! 0
     = sampleIntern\<lparr>speakersCount := 120, sheetStatus := Green\<rparr> \<and>
   updateSpeakers ''1700000000000-0'' 120 [sampleIntern\<lparr>sheetStatus := Black\<rparr>] ! 0
     = sampleIntern\<lparr>speakersCount := 120, sheetStatus := Green\<rparr> \<and>
   updateSpeakers ''1700000000000-0'' 20 [sampleIntern\<lparr>sheetStatus := Green\<rparr>] ! 0
     = sampleIntern\<lparr>speakersCount := 20, sheetStatus := Green\<rparr> \<and>
   updateSpeakers ''1700000000000-7'' 120 [sampleIntern] ! 0 = sampleIntern"
  using updateSpeakers_floor_clamp [of 0 "[sampleIntern]" "''1700000000000-0''" 120]
    updateSpeakers_floor_clamp [of 0 "[sampleIntern]" "''1700000000000-7''" 120]
    updateSpeakers_floor_clamp
      [of 0 "[sampleIntern\<lparr>sheetStatus := Black\<rparr>]" "''1700000000000-0''" 120]
    updateSpeakers_floor_clamp
      [of 0 "[sampleIntern\<lparr>sheetStatus := Green\<rparr>]" "''1700000000000-0''" 20]
  by (simp add: sampleIntern_def Let_def)

lemma setSegregation_one_eq:
  "setSegregation_one v p =
     p\<lparr>segregation := v,
       sheetStatus := (if v = Some Terminated \<or> v = Some Relocated then Black
                       else sheetStatus p)\<rparr>"
  by (simp add: setSegregation_one_def Let_def)

lemma setSegregation_nth:
  "k < length store \<Longrightarrow>
   setSegregation i v store ! k =
     (if ident (store ! k) \<noteq> i then store ! k else setSegregation_one v (store ! k))"
  by (simp add: setSegregation_def)

text \<open>
  Claim C2: for every store, id and segregation value \<open>v\<close> (\<open>None\<close> for the absent one),
  \<open>setSegregation(id, v)\<close> keeps the length of the store and every row whose id differs;
  in a row whose id matches it sets \<open>segregation\<close> to \<open>v\<close>, sets \<open>sheetStatus\<close> to Black when
  \<open>v\<close> is Terminated or Relocated, whatever the status was, and leaves \<open>sheetStatus\<close> as it
  was for every other \<open>v\<close>. No other field changes.
\<close>

theorem setSegregation_forces_black:
  assumes "k < length store"
  shows
    "(let p = store ! k;
          p' = setSegregation i v store ! k
      in length (setSegregation i v store) = length store \<and>
         (ident p \<noteq> i \<longrightarrow> p' = p) \<and>
         (ident p = i \<longrightarrow>
            p' = p\<lparr>segregation := v,
                   sheetStatus :=
                     (if v = Some Terminated \<or> v = Some Relocated then Black
                      else sheetStatus p)\<rparr>) \<and>
         (ident p = i \<and> (v = Some Terminated \<or> v = Some Relocated) \<longrightarrow>
            segregation p' = v \<and> sheetStatus p' = Black) \<and>
         (ident p = i \<and> v \<noteq> Some Terminated \<and> v \<noteq> Some Relocated \<longrightarrow>
            segregation p' = v \<and> sheetStatus p' = sheetStatus p))"
proof -
  have len: "length (setSegregation i v store) = length store"
    by (simp add: setSegregation_def)
  have other: "ident (store ! k) \<noteq> i \<Longrightarrow> setSegregation i v store ! k = store ! k"
    using assms by (simp add: setSegregation_nth)
  have hit: "ident (store ! k) = i \<Longrightarrow>
      setSegregation i v store ! k =
        (store ! k)\<lparr>segregation := v,
          sheetStatus := (if v = Some Terminated \<or> v = Some Relocated then Black
                          else sheetStatus (store ! k))\<rparr>"
    using assms by (simp only: setSegregation_nth setSegregation_one_eq) simp
  have forced: "ident (store ! k) = i \<Longrightarrow> v = Some Terminated \<or> v = Some Relocated \<Longrightarrow>
      segregation (setSegregation i v store ! k) = v \<and>
      sheetStatus (setSegregation i v store ! k) = Black"
    by (simp add: hit)
  have kept: "ident (store ! k) = i \<Longrightarrow> v \<noteq> Some Terminated \<Longrightarrow> v \<noteq> Some Relocated \<Longrightarrow>
      segregation (setSegregation i v store ! k) = v \<and>
      sheetStatus (setSegregation i v store ! k) = sheetStatus (store ! k)"
    by (simp add: hit)
  show ?thesis
    unfolding Let_def using len other hit forced kept by blast
qed

text \<open>
  The theorem at a Green row that is terminated, at a relocated Black row whose
  segregation is cleared, and at an id that matches no row.
\<close>

theorem setSegregation_forces_black_witness:
  "setSegregation ''1700000000000-0'' (Some Terminated)
       [sampleIntern\<lparr>sheetStatus := Green\<rparr>] ! 0
     = sampleIntern\<lparr>segregation := Some Terminated, sheetStatus := Black\<rparr> \<and>
   setSegregation ''1700000000000-0'' None
       [sampleIntern\<lparr>segregation := Some Relocated, sheetStatus := Black\<rparr>] ! 0
     = sampleIntern\<lparr>segregation := None, sheetStatus := Black\<rparr> \<and>
   setSegregation ''1700000000000-7'' (Some Terminated) [sampleIntern] ! 0 = sampleIntern"
  using setSegregation_forces_black
      [of 0 "[sampleIntern\<lparr>sheetStatus := Green\<rparr>]" "''1700000000000-0''" "Some Terminated"]
    setSegregation_forces_black
      [of 0 "[sampleIntern]" "''1700000000000-7''" "Some Terminated"]
    setSegregation_forces_black
      [of 0 "[sampleIntern\<lparr>segregation := Some Relocated, sheetStatus := Black\<rparr>]"
        "''1700000000000-0''" None]
  by (simp add: sampleIntern_def Let_def)

subsection \<open>Terminated and relocated rows\<close>

text \<open>The row that the generator builds when every draw is 0.98.\<close>

lemma seed_row: "generateSeedInterns rnd98 clock0 1 =
   [\<lparr>ident = ''1700000000000-0'', name = [], email = [],
      statusActivity = Active, excelSubmitted = Yes, aiChatAdded = True,
      dataMiningGC = True, speakersCount = 117, speakersTarget = 100,
      performance = Good, segregation = Some Terminated, sheetStatus = Black,
      dataRepurposed = Yes\<rparr>]"
  by (simp add: generateSeedInterns_def seedLoop.simps seedIntern_def rnd98_def clock0_def
      decimal.simps Let_def)


lemma seedIntern_exit:
  "\<not> disqualifying (segregation (fst (seedIntern rnd clock i k))) \<or>
   sheetStatus (fst (seedIntern rnd clock i k)) = Black"
  by (simp add: seedIntern_def Let_def disqualifying_def split: prod.splits)

lemma seedLoop_exits:
  "exitsAreBlack out \<Longrightarrow> exitsAreBlack (seedLoop rnd clock count i k out)"
proof (induction rnd clock count i k out rule: seedLoop.induct)
  case (1 rnd clock count i k out)
  show ?case
  proof (cases "i < count")
    case True
    obtain row k' where rk: "seedIntern rnd clock i k = (row, k')"
      by (cases "seedIntern rnd clock i k")
    have "\<not> disqualifying (segregation row) \<or> sheetStatus row = Black"
      using seedIntern_exit [of rnd clock i k] rk by simp
    then have "exitsAreBlack (out @ [row])"
      using "1.prems" by (simp add: exitsAreBlack_def)
    then have "exitsAreBlack (seedLoop rnd clock count (i + 1) k' (out @ [row]))"
      using "1.IH" [OF True rk [symmetric]] by simp
    then show ?thesis
      using True rk by (subst seedLoop.simps) simp
  next
    case False
    then show ?thesis
      using "1.prems" by (subst seedLoop.simps) simp
  qed
qed


lemma exits_map:
  assumes "exitsAreBlack s"
    and "\<And>p. \<not> disqualifying (segregation p) \<or> sheetStatus p = Black \<Longrightarrow>
           \<not> disqualifying (segregation (f p)) \<or> sheetStatus (f p) = Black"
  shows "exitsAreBlack (map f s)"
  using assms by (simp add: exitsAreBlack_def list_all_iff)

lemma exits_field_edit:
  assumes "exitsAreBlack s"
    and "\<And>p. segregation (g p) = segregation p \<and> sheetStatus (g p) = sheetStatus p"
  shows "exitsAreBlack (map (\<lambda>p. if ident p = i then g p else p) s)"
  by (rule exits_map [OF assms(1)]) (simp add: assms(2))

lemma applyEdit_exits:
  assumes "respectsExit e s" and "exitsAreBlack s"
  shows "exitsAreBlack (applyEdit e s)"
proof (cases e)
  case (UpdateSpeakers i c)
  show ?thesis
    unfolding UpdateSpeakers applyEdit.simps updateSpeakers_def
    by (rule exits_map [OF assms(2)])
      (auto simp add: updateSpeakers_one_eq disqualifying_def)
next
  case (SetSegregation i v)
  show ?thesis
    unfolding SetSegregation applyEdit.simps setSegregation_def
    by (rule exits_map [OF assms(2)])
      (auto simp add: setSegregation_one_eq disqualifying_def)
next
  case (SetSheetStatus i v)
  show ?thesis
  proof (cases "v = Black")
    case True
    show ?thesis
      unfolding SetSheetStatus applyEdit.simps setSheetStatus_def True
      by (rule exits_map [OF assms(2)]) simp
  next
    case False
    then have "list_all (\<lambda>p. ident p \<noteq> i \<or> \<not> disqualifying (segregation p)) s"
      using assms(1) SetSheetStatus by simp
    then show ?thesis
      using assms(2)
      unfolding SetSheetStatus applyEdit.simps setSheetStatus_def exitsAreBlack_def
      by (auto simp add: list_all_iff)
  qed
qed (simp_all add: setName_def setEmail_def setStatusActivity_def setExcelSubmitted_def
    toggleAiChat_def toggleDataMining_def setPerformance_def setDataRepurposed_def
    exits_field_edit [OF assms(2)])

lemma generateSeedInterns_exits: "exitsAreBlack (generateSeedInterns rnd clock count)"
  unfolding generateSeedInterns_def by (rule seedLoop_exits) (simp add: exitsAreBlack_def)

lemma reachable_exits:
  "reachableBy respectsExit init s \<Longrightarrow> exitsAreBlack init \<Longrightarrow> exitsAreBlack s"
  by (induction rule: reachableBy.induct) (simp_all add: applyEdit_exits)

text \<open>
  Claim C3, as stated, says that every reachable store keeps terminated and relocated
  rows Black. A seed row drawn Terminated is Black; \<open>setSheetStatus(id, Green)\<close> on it
  replaces the status and nothing else, so the reached store holds a Terminated Green row.
\<close>

theorem exits_black_counterexample:
  "reachableBy anyEdit (generateSeedInterns rnd98 clock0 1)
     (applyEdit (SetSheetStatus ''1700000000000-0'' Green) (generateSeedInterns rnd98 clock0 1)) \<and>
   segregation (applyEdit (SetSheetStatus ''1700000000000-0'' Green)
     (generateSeedInterns rnd98 clock0 1) ! 0) = Some Terminated \<and>
   sheetStatus (applyEdit (SetSheetStatus ''1700000000000-0'' Green)
     (generateSeedInterns rnd98 clock0 1) ! 0) = Green"
proof -
  have "reachableBy anyEdit (generateSeedInterns rnd98 clock0 1)
     (applyEdit (SetSheetStatus ''1700000000000-0'' Green) (generateSeedInterns rnd98 clock0 1))"
    by (rule reachableBy.edit [OF reachableBy.start]) (simp add: anyEdit_def)
  then show ?thesis
    unfolding seed_row by (simp add: setSheetStatus_def)
qed

text \<open>
  Claim C3, amended: in every store reached from the output of the seed generator (for
  any count, any random draws and any clock) by the inline edits, where each direct
  \<open>setSheetStatus\<close> either sets Black or has an id that matches no terminated or relocated
  row of the store it is applied to, every row whose segregation is Terminated or
  Relocated has \<open>sheetStatus\<close> Black.
\<close>

theorem exits_black_when_respected:
  assumes "reachableBy respectsExit (generateSeedInterns rnd clock count) s"
  shows "\<forall>p \<in> set s. segregation p = Some Terminated \<or> segregation p = Some Relocated
           \<longrightarrow> sheetStatus p = Black"
  using reachable_exits [OF assms generateSeedInterns_exits]
  by (auto simp add: exitsAreBlack_def list_all_iff disqualifying_def)

text \<open>
  The theorem at a Terminated seed row whose count is raised to 500: the guard of
  \<open>updateSpeakers\<close> keeps it Black.
\<close>

theorem exits_black_when_respected_witness:
  "reachableBy respectsExit (generateSeedInterns rnd98 clock0 1)
     (applyEdit (UpdateSpeakers ''1700000000000-0'' 500) (generateSeedInterns rnd98 clock0 1)) \<and>
   segregation (applyEdit (UpdateSpeakers ''1700000000000-0'' 500)
     (generateSeedInterns rnd98 clock0 1) ! 0) = Some Terminated \<and>
   sheetStatus (applyEdit (UpdateSpeakers ''1700000000000-0'' 500)
     (generateSeedInterns rnd98 clock0 1) ! 0) = Black"
proof -
  have r: "reachableBy respectsExit (generateSeedInterns rnd98 clock0 1)
     (applyEdit (UpdateSpeakers ''1700000000000-0'' 500) (generateSeedInterns rnd98 clock0 1))"
    by (rule reachableBy.edit [OF reachableBy.start]) simp
  show ?thesis
    using r exits_black_when_respected [OF r]
    unfolding seed_row by (simp add: updateSpeakers_def updateSpeakers_one_def)
qed

subsection \<open>Filtering and search\<close>

lemma take_is_start: "take (length q) s = q \<longleftrightarrow> (\<exists>post. s = q @ post)"
proof
  assume "take (length q) s = q"
  then have "s = q @ drop (length q) s"
    by (metis append_take_drop_id)
  then show "\<exists>post. s = q @ post" ..
next
  assume "\<exists>post. s = q @ post"
  then show "take (length q) s = q" by auto
qed

lemma includes_js_iff: "includes_js s q \<longleftrightarrow> (\<exists>pre post. s = pre @ q @ post)"
proof (induction s)
  case Nil
  then show ?case by auto
next
  case (Cons c s)
  show ?case
  proof
    assume "includes_js (c # s) q"
    then consider "take (length q) (c # s) = q" | "includes_js s q" by auto
    then show "\<exists>pre post. c # s = pre @ q @ post"
    proof cases
      case 1
      then obtain post where "c # s = q @ post"
        using take_is_start [of q "c # s"] by blast
      then have "c # s = [] @ q @ post" by simp
      then show ?thesis by blast
    next
      case 2
      then obtain pre post where "s = pre @ q @ post"
        using Cons.IH by blast
      then have "c # s = (c # pre) @ q @ post" by simp
      then show ?thesis by blast
    qed
  next
    assume "\<exists>pre post. c # s = pre @ q @ post"
    then obtain pre post where eq: "c # s = pre @ q @ post" by blast
    show "includes_js (c # s) q"
    proof (cases pre)
      case Nil
      then have "take (length q) (c # s) = q"
        using eq take_is_start [of q "c # s"] by auto
      then show ?thesis by simp
    next
      case (Cons a pre')
      then have "s = pre' @ q @ post" using eq by simp
      then have "includes_js s q" using Cons.IH by blast
      then show ?thesis by simp
    qed
  qed
qed

lemma map_split:
  assumes "map f xs = ys @ zs"
  shows "\<exists>a b. xs = a @ b \<and> map f a = ys \<and> map f b = zs"
proof (intro exI conjI)
  show "xs = take (length ys) xs @ drop (length ys) xs" by simp
  show "map f (take (length ys) xs) = ys"
    using assms by (metis append_eq_conv_conj take_map)
  show "map f (drop (length ys) xs) = zs"
    using assms by (metis append_eq_conv_conj drop_map)
qed

lemma includes_lower_iff:
  "includes_js (toLowerCase field) (toLowerCase q) \<longleftrightarrow> containsIgnoringCase field q"
proof
  assume "includes_js (toLowerCase field) (toLowerCase q)"
  then obtain pre post where "map toLowerChar field = pre @ (map toLowerChar q @ post)"
    unfolding includes_js_iff toLowerCase_def by auto
  then obtain a rest where f: "field = a @ rest"
    and "map toLowerChar rest = map toLowerChar q @ post"
    using map_split [of toLowerChar field pre] by blast
  then obtain u b where "rest = u @ b" and "map toLowerChar u = map toLowerChar q"
    using map_split [of toLowerChar rest "map toLowerChar q" post] by blast
  then show "containsIgnoringCase field q"
    unfolding containsIgnoringCase_def toLowerCase_def using f by blast
next
  assume "containsIgnoringCase field q"
  then obtain pre u post where "field = pre @ u @ post" and "toLowerCase u = toLowerCase q"
    unfolding containsIgnoringCase_def by blast
  then have "toLowerCase field = toLowerCase pre @ toLowerCase q @ toLowerCase post"
    by (simp add: toLowerCase_def)
  then show "includes_js (toLowerCase field) (toLowerCase q)"
    unfolding includes_js_iff by blast
qed

lemma toLowerCase_Nil_iff: "toLowerCase s = [] \<longleftrightarrow> s = []"
  by (simp add: toLowerCase_def)

lemma matchesSearch_iff:
  "matchesSearch search r \<longleftrightarrow>
     (trim search \<noteq> [] \<longrightarrow>
         containsIgnoringCase (name r) (trim search) \<or>
         containsIgnoringCase (email r) (trim search) \<or>
         containsIgnoringCase (segregation_or_empty (segregation r)) (trim search))"
  by (simp add: matchesSearch_def Let_def toLowerCase_Nil_iff includes_lower_iff)

lemma matchesSearch_B_iff:
  "matchesSearch_B search r \<longleftrightarrow>
     (trim search \<noteq> [] \<longrightarrow>
         containsIgnoringCase (name_B r) (trim search) \<or>
         containsIgnoringCase (email_B r) (trim search) \<or>
         containsIgnoringCase (mentor r) (trim search) \<or>
         containsIgnoringCase (department r) (trim search))"
  by (simp add: matchesSearch_B_def Let_def toLowerCase_Nil_iff includes_lower_iff)

lemma filtered_presort_eq:
  "filtered_presort search fs fp R = filter (satisfiesFilters search fs fp) R"
  unfolding filtered_presort_def satisfiesFilters_def filter_filter matchesSearch_iff
  by (rule filter_cong) auto

lemma filtered_presort_B_eq:
  "filtered_presort_B search d st R = filter (satisfiesFilters_B search d st) R"
  unfolding filtered_presort_B_def satisfiesFilters_B_def filter_filter matchesSearch_B_iff
  by (rule filter_cong) auto

text \<open>
  Claim C4: for every record set and every filter state (the two selections and the
  query), in both views, the chain of filters that precedes the sort returns exactly the
  records that satisfy every selection other than \<open>All\<close> and, when the trimmed query is
  not empty, contain it up to case in one of the searched fields (name, email and
  segregation in the tracker view; name, email, mentor and department in the directory
  view). The result is a subsequence of the record set; and when both selections are
  \<open>All\<close> and the trimmed query is empty, it is the record set in its order.
\<close>

theorem filtered_sound:
  "filtered_presort search fs fp R = filter (satisfiesFilters search fs fp) R \<and>
   subseq (filtered_presort search fs fp R) R \<and>
   (\<forall>r \<in> set (filtered_presort search fs fp R). r \<in> set R \<and> satisfiesFilters search fs fp r) \<and>
   (fs = ''All'' \<and> fp = ''All'' \<and> trim search = [] \<longrightarrow> filtered_presort search fs fp R = R) \<and>
   filtered_presort_B search d st B = filter (satisfiesFilters_B search d st) B \<and>
   subseq (filtered_presort_B search d st B) B \<and>
   (\<forall>r \<in> set (filtered_presort_B search d st B). r \<in> set B \<and> satisfiesFilters_B search d st r) \<and>
   (d = ''All'' \<and> st = ''All'' \<and> trim search = [] \<longrightarrow> filtered_presort_B search d st B = B)"
proof -
  have a: "fs = ''All'' \<and> fp = ''All'' \<and> trim search = [] \<longrightarrow> filter (satisfiesFilters search fs fp) R = R"
    by (simp add: satisfiesFilters_def)
  have b: "d = ''All'' \<and> st = ''All'' \<and> trim search = [] \<longrightarrow> filter (satisfiesFilters_B search d st) B = B"
    by (simp add: satisfiesFilters_B_def)
  show ?thesis
    unfolding filtered_presort_eq filtered_presort_B_eq
    using a b by simp
qed


text \<open>
  The theorem at a query with blanks and capitals in the tracker view, at a query and a
  department in the directory view, and at the filter state that selects everything.
\<close>

lemma filtered_presort_sample: "filtered_presort ''  AVA '' ''All'' ''Weak'' sampleRoster = [sampleIntern]"
  by code_simp

lemma filtered_presort_B_sample: "filtered_presort_B ''GARC'' ''Engineering'' ''All'' sampleInterns_B = [sampleInterns_B ! 3]"
  by code_simp

theorem filtered_sound_witness:
  "filtered_presort ''  AVA '' ''All'' ''Weak'' sampleRoster = [sampleIntern] \<and>
   subseq [sampleIntern] sampleRoster \<and>
   satisfiesFilters ''  AVA '' ''All'' ''Weak'' sampleIntern \<and>
   filtered_presort '' '' ''All'' ''All'' sampleRoster = sampleRoster \<and>
   filtered_presort_B ''GARC'' ''Engineering'' ''All'' sampleInterns_B = [sampleInterns_B ! 3] \<and>
   subseq [sampleInterns_B ! 3] sampleInterns_B \<and>
   satisfiesFilters_B ''GARC'' ''Engineering'' ''All'' (sampleInterns_B ! 3) \<and>
   filtered_presort_B '' '' ''All'' ''All'' sampleInterns_B = sampleInterns_B"
proof -
  have t: "trim '' '' = []" by code_simp
  note A = filtered_sound [of "''  AVA ''" "''All''" "''Weak''" sampleRoster
      "''Engineering''" "''All''" "[]"]
  note B = filtered_sound [of "''GARC''" "''All''" "''All''" "[]"
      "''Engineering''" "''All''" sampleInterns_B]
  note I = filtered_sound [of "'' ''" "''All''" "''All''" sampleRoster
      "''All''" "''All''" sampleInterns_B]
  have a1: "subseq [sampleIntern] sampleRoster"
    using A unfolding filtered_presort_sample by blast
  have "\<forall>r \<in> set [sampleIntern]. r \<in> set sampleRoster \<and>
      satisfiesFilters ''  AVA '' ''All'' ''Weak'' r"
    using A unfolding filtered_presort_sample by blast
  then have a2: "satisfiesFilters ''  AVA '' ''All'' ''Weak'' sampleIntern"
    by simp
  have a3: "filtered_presort '' '' ''All'' ''All'' sampleRoster = sampleRoster"
    using I t by blast
  have b1: "subseq [sampleInterns_B ! 3] sampleInterns_B"
    using B unfolding filtered_presort_B_sample by blast
  have "\<forall>r \<in> set [sampleInterns_B ! 3]. r \<in> set sampleInterns_B \<and>
      satisfiesFilters_B ''GARC'' ''Engineering'' ''All'' r"
    using B unfolding filtered_presort_B_sample by blast
  then have b2: "satisfiesFilters_B ''GARC'' ''Engineering'' ''All'' (sampleInterns_B ! 3)"
    by simp
  have b3: "filtered_presort_B '' '' ''All'' ''All'' sampleInterns_B = sampleInterns_B"
    using I t by blast
  show ?thesis
    using filtered_presort_sample a1 a2 a3 filtered_presort_B_sample b1 b2 b3 by blast
qed

subsection \<open>Pagination\<close>

lemma slice_take_drop:
  assumes "0 \<le> a" and "a \<le> b"
  shows "slice xs a b = take (nat (b - a)) (drop (nat a) xs)"
proof (cases "a \<le> int (length xs)")
  case True
  then show ?thesis
    using assms by (auto simp add: slice_def Let_def min_def)
next
  case False
  then show ?thesis
    using assms by (auto simp add: slice_def Let_def min_def)
qed

lemma paginated_take_drop:
  assumes "1 \<le> p" and "0 < s"
  shows "paginated xs p s = take (nat s) (drop (nat (p - 1) * nat s) xs)"
proof -
  have "0 \<le> (p - 1) * s" using assms by simp
  moreover have "nat ((p - 1) * s) = nat (p - 1) * nat s"
    using assms by (simp add: nat_mult_distrib)
  ultimately show ?thesis
    using assms by (simp add: paginated_def Let_def slice_take_drop)
qed

lemma take_drop_nth: "take n (drop a xs) = map ((!) xs) [a ..< min (a + n) (length xs)]"
  by (rule nth_equalityI) auto

lemma concat_pages:
  "concat (map (\<lambda>k. take n (drop (k * n) xs)) [0 ..< t]) = take (t * n) xs"
proof (induction t)
  case 0
  then show ?case by simp
next
  case (Suc t)
  have "Suc t * n = t * n + n" by simp
  then have "take (Suc t * n) xs = take (t * n) xs @ take n (drop (t * n) xs)"
    by (simp only: take_add)
  then show ?case using Suc by simp
qed

lemma page_count_bounds:
  assumes "0 < s" and T: "T = max 1 \<lceil>real (length xs) / real_of_int s\<rceil>"
  shows "int (length xs) \<le> T * s"
    and "1 < T \<Longrightarrow> (T - 1) * s < int (length xs)"
    and "1 \<le> T"
proof -
  define x where "x = real (length xs) / real_of_int s"
  have sr: "0 < real_of_int s" using assms by simp
  have xs: "real (length xs) = x * real_of_int s"
    unfolding x_def using sr by simp
  have "x \<le> real_of_int \<lceil>x\<rceil>" by (rule le_of_int_ceiling)
  then have "x * real_of_int s \<le> real_of_int \<lceil>x\<rceil> * real_of_int s"
    using sr by (intro mult_right_mono) simp_all
  then have "real (length xs) \<le> real_of_int \<lceil>x\<rceil> * real_of_int s"
    using xs by simp
  then have "int (length xs) \<le> \<lceil>x\<rceil> * s"
    by (metis of_int_le_iff of_int_mult of_int_of_nat_eq)
  moreover have "\<lceil>x\<rceil> * s \<le> max 1 \<lceil>x\<rceil> * s"
    using assms by (simp add: mult_right_mono)
  ultimately show "int (length xs) \<le> T * s"
    unfolding T x_def by linarith
  show "1 \<le> T" by (simp add: T)
  assume "1 < T"
  then have Tx: "T = \<lceil>x\<rceil>"
    unfolding T x_def by linarith
  have "real_of_int \<lceil>x\<rceil> - 1 < x" by linarith
  then have "(real_of_int \<lceil>x\<rceil> - 1) * real_of_int s < x * real_of_int s"
    using sr by (intro mult_strict_right_mono) simp_all
  then have "(real_of_int \<lceil>x\<rceil> - 1) * real_of_int s < real (length xs)"
    using xs by simp
  then have "real_of_int ((\<lceil>x\<rceil> - 1) * s) < real_of_int (int (length xs))"
    by simp
  then have "(\<lceil>x\<rceil> - 1) * s < int (length xs)"
    by (simp only: of_int_less_iff)
  then show "(T - 1) * s < int (length xs)"
    using Tx by simp
qed

lemma paginated_length:
  assumes "1 \<le> p" and "0 < s"
  shows "int (length (paginated xs p s)) = min s (max 0 (int (length xs) - (p - 1) * s))"
proof -
  define a where "a = nat (p - 1) * nat s"
  define m where "m = (p - 1) * s"
  have ia: "int a = m"
    unfolding a_def m_def using assms by simp
  have len: "length (paginated xs p s) = min (nat s) (length xs - a)"
    unfolding paginated_take_drop [OF assms] a_def by (simp add: min.commute)
  have "int (min (nat s) (length xs - a)) = min s (max 0 (int (length xs) - m))"
    using ia assms(2) by linarith
  then show ?thesis
    unfolding len m_def .
qed

text \<open>
  Claim C5: for every filtered sequence, every page number \<open>p\<close> from 1 and every positive
  page size \<open>s\<close>, \<open>paginated\<close> is the slice of the sequence from index \<open>(p - 1) * s\<close> up to
  but not including \<open>p * s\<close> (cut at the end of the sequence); \<open>totalPages\<close> is a number, the
  larger of 1 and the ceiling of length / \<open>s\<close>, and that many pages cover the sequence; every
  page before the last holds \<open>s\<close> elements; the last page holds
  length - \<open>s\<close> * (\<open>totalPages\<close> - 1) elements; and the pages 1 to \<open>totalPages\<close>, concatenated in
  order, are the sequence.
\<close>

theorem paginated_pages:
  assumes "1 \<le> p" and "0 < s"
  shows
    "(let T = max 1 \<lceil>real (length xs) / real_of_int s\<rceil> in
      paginated xs p s = map ((!) xs) [nat ((p - 1) * s) ..< min (nat (p * s)) (length xs)] \<and>
      totalPages xs s = Some T \<and>
      int (length xs) \<le> T * s \<and>
      (p < T \<longrightarrow> int (length (paginated xs p s)) = s) \<and>
      int (length (paginated xs T s)) = int (length xs) - s * (T - 1) \<and>
      concat (map (\<lambda>k. paginated xs (int k + 1) s) [0 ..< nat T]) = xs)"
proof -
  define T where "T = max 1 \<lceil>real (length xs) / real_of_int s\<rceil>"
  let ?L = "int (length xs)"
  note tb = page_count_bounds [OF assms(2) T_def]
  have a: "nat (p - 1) * nat s = nat ((p - 1) * s)"
    using assms by (simp add: nat_mult_distrib)
  have "nat ((p - 1) * s) + nat s = nat ((p - 1) * s + s)"
    using assms by (simp add: nat_add_distrib)
  also have "(p - 1) * s + s = p * s"
    by (simp add: algebra_simps)
  finally have b: "nat ((p - 1) * s) + nat s = nat (p * s)" .
  have c1: "paginated xs p s = map ((!) xs) [nat ((p - 1) * s) ..< min (nat (p * s)) (length xs)]"
    unfolding paginated_take_drop [OF assms] take_drop_nth a b ..
  have c2: "totalPages xs s = Some T"
    using assms(2) by (simp add: totalPages_def js_divide_def T_def)
  have c3: "p < T \<longrightarrow> int (length (paginated xs p s)) = s"
  proof
    assume lt: "p < T"
    then have "1 < T" using assms by simp
    then have "(T - 1) * s < ?L" by (rule tb(2))
    moreover have "p * s \<le> (T - 1) * s"
      using lt assms by (intro mult_right_mono) simp_all
    ultimately have "p * s < ?L" by simp
    then have "s \<le> ?L - (p - 1) * s" by (simp add: algebra_simps)
    then show "int (length (paginated xs p s)) = s"
      using assms by (simp add: paginated_length)
  qed
  have c4: "int (length (paginated xs T s)) = ?L - s * (T - 1)"
  proof (cases "1 < T")
    case True
    then have "(T - 1) * s < ?L" by (rule tb(2))
    moreover have "?L \<le> T * s" by (rule tb(1))
    ultimately show ?thesis
      using assms tb(3) by (simp add: paginated_length algebra_simps)
  next
    case False
    then have "T = 1" using tb(3) by simp
    moreover have "?L \<le> T * s" by (rule tb(1))
    ultimately show ?thesis
      using assms by (simp add: paginated_length)
  qed
  have page: "paginated xs (int k + 1) s = take (nat s) (drop (k * nat s) xs)" for k
    using paginated_take_drop [of "int k + 1" s xs] assms by simp
  have "int (length xs) \<le> int (nat T * nat s)"
    using tb(1) tb(3) assms by simp
  then have "length xs \<le> nat T * nat s"
    by (simp only: of_nat_le_iff)
  then have c5: "concat (map (\<lambda>k. paginated xs (int k + 1) s) [0 ..< nat T]) = xs"
    unfolding page concat_pages by simp
  show ?thesis
    unfolding Let_def T_def [symmetric]
    using c1 c2 tb(1) c3 c4 c5 by blast
qed

text \<open>The theorem at seven elements in pages of three: the second and the last page.\<close>

theorem paginated_pages_witness:
  "paginated [10, 20, 30, 40, 50, 60, 70 :: nat] 2 3 = [40, 50, 60] \<and>
   totalPages [10, 20, 30, 40, 50, 60, 70 :: nat] 3 = Some 3 \<and>
   paginated [10, 20, 30, 40, 50, 60, 70 :: nat] 3 3 = [70] \<and>
   concat (map (\<lambda>k. paginated [10, 20, 30, 40, 50, 60, 70 :: nat] (int k + 1) 3) [0 ..< 3])
     = [10, 20, 30, 40, 50, 60, 70]"
proof -
  have t: "max 1 \<lceil>real (length [10, 20, 30, 40, 50, 60, 70 :: nat]) / real_of_int 3\<rceil> = 3"
    by simp
  have p2: "paginated [10, 20, 30, 40, 50, 60, 70 :: nat] 2 3 = [40, 50, 60]"
    by (simp add: paginated_def slice_def)
  have p3: "paginated [10, 20, 30, 40, 50, 60, 70 :: nat] 3 3 = [70]"
    by (simp add: paginated_def slice_def)
  have "totalPages [10, 20, 30, 40, 50, 60, 70 :: nat] 3 = Some 3 \<and>
    concat (map (\<lambda>k. paginated [10, 20, 30, 40, 50, 60, 70 :: nat] (int k + 1) 3)
      [0 ..< nat 3]) = [10, 20, 30, 40, 50, 60, 70]"
    using paginated_pages [of 2 3 "[10, 20, 30, 40, 50, 60, 70 :: nat]"]
    unfolding Let_def t by fastforce
  then show ?thesis
    using p2 p3 by simp
qed


subsection \<open>Page controls\<close>

lemma no_row_matches_zzz: "matchesSearch ''zzz'' sampleIntern = False"
  by code_simp

text \<open>
  Claim C6, as stated, says that for every page \<open>p\<close> from 1 and every number of pages \<open>t\<close>
  from 1 the page stays within 1 to \<open>t\<close> under Prev and Next. Only the handler of the page
  size resets the page; the search box and the two selections do not. With 550 rows in
  pages of 25 the last page is 22; the query \<open>zzz\<close> then leaves no row and one page, the
  page is still 22, and Prev sets it to 21, which is above the one page there is.
\<close>

theorem page_stays_within_counterexample:
  "totalPages (replicate 550 sampleIntern) 25 = Some 22 \<and>
   totalPages (filtered_presort ''zzz'' ''All'' ''All'' (replicate 550 sampleIntern)) 25
     = Some 1 \<and>
   1 \<le> page \<lparr>page = 22, pageSize = 25\<rparr> \<and>
   page (prevPage \<lparr>page = 22, pageSize = 25\<rparr>) = 21 \<and>
   \<not> page (prevPage \<lparr>page = 22, pageSize = 25\<rparr>) \<le> 1"
proof -
  have before: "totalPages (replicate 550 sampleIntern) 25 = Some 22"
    by (simp add: totalPages_def js_divide_def)
  have "filtered_presort ''zzz'' ''All'' ''All'' (replicate 550 sampleIntern) = []"
    by (simp add: filtered_presort_def no_row_matches_zzz)
  then have after:
    "totalPages (filtered_presort ''zzz'' ''All'' ''All'' (replicate 550 sampleIntern)) 25
       = Some 1"
    by (simp add: totalPages_def js_divide_def)
  have prev: "page (prevPage \<lparr>page = 22, pageSize = 25\<rparr>) = 21"
    by (simp add: prevPage_def)
  show ?thesis
    using before after prev by simp
qed

text \<open>
  Claim C6, amended: for every page \<open>p\<close> and every number of pages \<open>t\<close>, the Prev button
  sets the page to \<open>max(1, p - 1)\<close> and the Next button to \<open>min(t, p + 1)\<close>, and neither
  changes the page size; for \<open>p\<close> and \<open>t\<close> from 1, the page after Next is within 1 to \<open>t\<close>,
  and the page after Prev is at least 1 and is at most \<open>t\<close> exactly when \<open>p\<close> is at most
  \<open>t + 1\<close>, so a page within 1 to \<open>t\<close> stays within 1 to \<open>t\<close> under both; and choosing a
  page size sets the page to 1, whatever it was.
\<close>

theorem page_controls_saturate:
  "page (prevPage st) = max 1 (page st - 1) \<and>
   page (nextPage t st) = min t (page st + 1) \<and>
   pageSize (prevPage st) = pageSize st \<and>
   pageSize (nextPage t st) = pageSize st \<and>
   (1 \<le> page st \<and> page st \<le> t \<longrightarrow>
      1 \<le> page (prevPage st) \<and> page (prevPage st) \<le> t \<and>
      1 \<le> page (nextPage t st) \<and> page (nextPage t st) \<le> t) \<and>
   (1 \<le> page st \<and> 1 \<le> t \<longrightarrow>
      1 \<le> page (prevPage st) \<and> 1 \<le> page (nextPage t st) \<and> page (nextPage t st) \<le> t) \<and>
   (1 \<le> page st \<and> 1 \<le> t \<longrightarrow>
      (page (prevPage st) \<le> t) = (page st \<le> t + 1)) \<and>
   page (changePageSize v st) = 1 \<and>
   pageSize (changePageSize v st) = v"
proof -
  have beyond: "1 \<le> page st \<and> 1 \<le> t \<longrightarrow>
      (page (prevPage st) \<le> t) = (page st \<le> t + 1)"
    by (simp add: prevPage_def) linarith
  have prev: "page (prevPage st) = max 1 (page st - 1)"
    by (simp add: prevPage_def)
  have nxt: "page (nextPage t st) = min t (page st + 1)"
    by (simp add: nextPage_def)
  have sizes: "pageSize (prevPage st) = pageSize st \<and> pageSize (nextPage t st) = pageSize st"
    by (simp add: prevPage_def nextPage_def)
  have inside: "1 \<le> page st \<and> page st \<le> t \<longrightarrow>
      1 \<le> page (prevPage st) \<and> page (prevPage st) \<le> t \<and>
      1 \<le> page (nextPage t st) \<and> page (nextPage t st) \<le> t"
    unfolding prev nxt by linarith
  have lower: "1 \<le> page st \<and> 1 \<le> t \<longrightarrow>
      1 \<le> page (prevPage st) \<and> 1 \<le> page (nextPage t st) \<and> page (nextPage t st) \<le> t"
    unfolding prev nxt by linarith
  have reset: "page (changePageSize v st) = 1 \<and> pageSize (changePageSize v st) = v"
    by (simp add: changePageSize_def)
  show ?thesis
    using prev nxt sizes inside lower beyond reset by blast
qed

text \<open>
  The theorem on page 3 of 11 with 50 rows a page: Prev gives 2, Next gives 4, and the
  choice of 25 rows a page gives page 1. On the last page Next stays, on the first Prev
  stays. From page 12 of 11 Prev comes back to 11, and Next from page 20 of 11 gives 11.
\<close>

theorem page_controls_saturate_witness:
  "page (prevPage \<lparr>page = 3, pageSize = 50\<rparr>) = 2 \<and>
   page (nextPage 11 \<lparr>page = 3, pageSize = 50\<rparr>) = 4 \<and>
   page (nextPage 11 \<lparr>page = 11, pageSize = 50\<rparr>) = 11 \<and>
   page (prevPage \<lparr>page = 1, pageSize = 50\<rparr>) = 1 \<and>
   page (prevPage \<lparr>page = 12, pageSize = 50\<rparr>) = 11 \<and>
   page (nextPage 11 \<lparr>page = 20, pageSize = 50\<rparr>) = 11 \<and>
   changePageSize 25 \<lparr>page = 3, pageSize = 50\<rparr> = \<lparr>page = 1, pageSize = 25\<rparr>"
  using page_controls_saturate [of "\<lparr>page = 3, pageSize = 50\<rparr>" 11 25]
    page_controls_saturate [of "\<lparr>page = 11, pageSize = 50\<rparr>" 11 25]
    page_controls_saturate [of "\<lparr>page = 1, pageSize = 50\<rparr>" 11 25]
    page_controls_saturate [of "\<lparr>page = 12, pageSize = 50\<rparr>" 11 25]
    page_controls_saturate [of "\<lparr>page = 20, pageSize = 50\<rparr>" 11 25]
  by (simp add: changePageSize_def)

subsection \<open>CSV export\<close>

lemma replaceAll_concat:
  "replaceAll c rep xs = concat (map (\<lambda>x. if x = c then rep else [x]) xs)"
  by (induction xs) simp_all

lemma csvCell_quoted: "csvCell v = quoted v"
  by (simp add: csvCell_def quoted_def replaceAll_concat)

lemma join_Cons: "join sep (x # xs) = x @ concat (map (\<lambda>y. sep @ y) xs)"
  by (induction xs arbitrary: x) simp_all

lemma csvText_Cons:
  "csvText (h # t) =
     join '','' (map csvCell h) @ concat (map (\<lambda>r. newline # join '','' (map csvCell r)) t)"
  by (simp add: csvText_def join_Cons comp_def)

lemma header_line: "join '','' (map csvCell header) = headerLine"
  by (simp add: header_def headerLine_def csvCell_quoted)

lemma body_line: "join '','' (map csvCell (bodyRow r)) = rowLine r"
  by (simp add: bodyRow_def rowLine_def csvCell_quoted segregation_or_empty_def)

lemma header_line_B: "join '','' (map csvCell header_B) = headerLine_B"
  by (simp add: header_B_def headerLine_B_def csvCell_quoted)

lemma body_line_B: "join '','' (map csvCell (bodyRow_B r)) = rowLine_B r"
  by (simp add: bodyRow_B_def rowLine_B_def csvCell_quoted)

text \<open>
  Claim C7: for every ordered list of records, in both views, the exported text is the
  header line of the quoted column names followed, for each record in order, by a
  newline and the line of that record; a line holds the display strings of the fields
  (Yes or No for a boolean, the empty string for an absent segregation, the decimal
  digits for a number), each wrapped in double quotes with every inner double quote
  doubled, separated by commas. The value \<open>He said\<close>, quote, \<open>hi\<close>, quote is written
  as quote, \<open>He said\<close>, two quotes, \<open>hi\<close>, three quotes.
\<close>

theorem exportToCsv_document:
  "exportToCsv rows = headerLine @ concat (map (\<lambda>r. newline # rowLine r) rows) \<and>
   exportToCsv_B rows_B = headerLine_B @ concat (map (\<lambda>r. newline # rowLine_B r) rows_B) \<and>
   csvCell v = quoted v \<and>
   csvCell (''He said '' @ [dquote] @ ''hi'' @ [dquote])
     = [dquote] @ ''He said '' @ [dquote, dquote] @ ''hi'' @ [dquote, dquote] @ [dquote]"
proof -
  have a: "exportToCsv rows = headerLine @ concat (map (\<lambda>r. newline # rowLine r) rows)"
    by (simp add: exportToCsv_def csvText_Cons header_line body_line comp_def)
  have b: "exportToCsv_B rows_B
      = headerLine_B @ concat (map (\<lambda>r. newline # rowLine_B r) rows_B)"
    by (simp add: exportToCsv_B_def csvText_Cons header_line_B body_line_B comp_def)
  have c: "csvCell (''He said '' @ [dquote] @ ''hi'' @ [dquote])
     = [dquote] @ ''He said '' @ [dquote, dquote] @ ''hi'' @ [dquote, dquote] @ [dquote]"
    by (simp add: csvCell_def dquote_def)
  show ?thesis using a b c csvCell_quoted by blast
qed

section \<open>Properties of the directory view\<close>

subsection \<open>Average score\<close>

lemma foldl_score: "foldl (\<lambda>s i. s + score i) a xs = a + sum_list (map score xs)"
  by (induction xs arbitrary: a) simp_all

lemma Math_round_nearest: "\<bar>real_of_int (Math_round x) - x\<bar> \<le> 1 / 2"
  unfolding Math_round_def by linarith

text \<open>
  Claim C8: the average score of the empty store is 0; for no store is it \<open>NaN\<close> or an
  infinity, since the division is behind the guard on the length; the average score of
  a store that is not empty is the sum of the scores divided by the number of records,
  rounded to the nearest integer (a tie upwards, as \<open>Math.round\<close> does), so it differs
  from the exact quotient by at most one half.
\<close>

theorem avgScore_guarded:
  "avgScore (stats []) = Some 0 \<and>
   avgScore (stats roster) \<noteq> None \<and>
   (roster \<noteq> [] \<longrightarrow>
      (\<exists>n. avgScore (stats roster) = Some n \<and>
           n = \<lfloor>real_of_int (sum_list (map score roster)) / real (length roster) + 1 / 2\<rfloor> \<and>
           \<bar>real_of_int n
              - real_of_int (sum_list (map score roster)) / real (length roster)\<bar> \<le> 1 / 2))"
proof -
  have e: "avgScore (stats []) = Some 0"
    by (simp add: stats_def)
  have n: "roster \<noteq> [] \<Longrightarrow> avgScore (stats roster)
      = Some (Math_round (real_of_int (sum_list (map score roster)) / real (length roster)))"
    by (simp add: stats_def js_divide_def foldl_score)
  have d: "avgScore (stats roster) \<noteq> None"
    using e n by (cases "roster = []") simp_all
  show ?thesis
    using e n d Math_round_nearest
      [of "real_of_int (sum_list (map score roster)) / real (length roster)"]
    by (simp add: Math_round_def)
qed

text \<open>
  The theorem at the four seed rows (92, 81, 88 and 75, average 84); two rows with the
  scores 92 and 81 show the tie 86.5 rounded to 87.
\<close>

lemma avgScore_sample: "avgScore (stats sampleInterns_B) = Some 84"
  by (simp add: stats_def js_divide_def sampleInterns_B_def seedInterns_def Math_round_def)

lemma avgScore_tie: "avgScore (stats [sampleInterns_B ! 0, sampleInterns_B ! 1]) = Some 87"
  by (simp add: stats_def js_divide_def sampleInterns_B_def seedInterns_def Math_round_def)

theorem avgScore_guarded_witness:
  "avgScore (stats []) = Some 0 \<and>
   avgScore (stats sampleInterns_B) = Some 84 \<and>
   sum_list (map score sampleInterns_B) = 336 \<and> length sampleInterns_B = 4"
  using avgScore_guarded [of sampleInterns_B]
  by (simp add: sampleInterns_B_def seedInterns_def)

subsection \<open>Adding an intern\<close>

text \<open>
  Claim C10: when the name or the email of the form is the empty string, \<open>addIntern\<close>
  leaves the page state, and with it the store, as it was; otherwise the store is the
  old store with one record in front of it, which carries the drawn id and the fields of
  the form, every old record unchanged; the dialog is closed and the form is blank again.
\<close>

theorem addIntern_guarded:
  "(name_F (form st) = [] \<or> email_F (form st) = [] \<longrightarrow> addIntern newId today st = st) \<and>
   (name_F (form st) \<noteq> [] \<and> email_F (form st) \<noteq> [] \<longrightarrow>
      interns (addIntern newId today st)
        = \<lparr>ident_B = newId, name_B = name_F (form st), email_B = email_F (form st),
            department = department_F (form st), mentor = mentor_F (form st),
            startDate = startDate_F (form st), status = status_F (form st),
            score = score_F (form st)\<rparr> # interns st \<and>
      length (interns (addIntern newId today st)) = Suc (length (interns st)) \<and>
      tl (interns (addIntern newId today st)) = interns st \<and>
      dialogOpen (addIntern newId today st) = False \<and>
      form (addIntern newId today st)
        = \<lparr>name_F = [], email_F = [], department_F = ''Engineering'', mentor_F = [],
            startDate_F = today, status_F = Active_B, score_F = 80\<rparr>)"
proof (cases "name_F (form st) = [] \<or> email_F (form st) = []")
  case True
  then have "addIntern newId today st = st"
    by (simp add: addIntern_def)
  then show ?thesis
    using True by blast
next
  case False
  then have added: "addIntern newId today st
      = st\<lparr>interns := withId newId (form st) # interns st, dialogOpen := False,
           form := blankForm today\<rparr>"
    by (simp add: addIntern_def)
  have "hd departments = ''Engineering''"
    by (simp add: departments_def)
  then show ?thesis
    using False unfolding added by (simp add: withId_def blankForm_def)
qed

text \<open>The theorem at a blank form and at a filled one.\<close>

theorem addIntern_guarded_witness:
  "addIntern ''k3j9x1q'' ''2024-05-02'' (samplePage_B\<lparr>form := blankForm ''2024-05-02''\<rparr>)
     = samplePage_B\<lparr>form := blankForm ''2024-05-02''\<rparr> \<and>
   interns (addIntern ''k3j9x1q'' ''2024-05-02'' samplePage_B)
     = \<lparr>ident_B = ''k3j9x1q'', name_B = ''Noah Kim'', email_B = ''noah.kim@example.com'',
         department = ''Product'', mentor = ''T. Ito'', startDate = ''2024-05-02'',
         status = Offer, score = 70\<rparr> # sampleInterns_B"
  using addIntern_guarded [of "samplePage_B\<lparr>form := blankForm ''2024-05-02''\<rparr>"
      "''k3j9x1q''" "''2024-05-02''"]
    addIntern_guarded [of samplePage_B "''k3j9x1q''" "''2024-05-02''"]
  by (simp add: samplePage_B_def blankForm_def)


section \<open>Avatar hue\<close>

lemma shl5_wrap32: "shl5 h = wrap32 (h * 32)"
proof -
  have "push_bit 5 (word_of_int h :: 32 word) = word_of_int (h * 32)"
    by (simp add: push_bit_eq_mult)
  then have "shl5 h = sint (word_of_int (h * 32) :: 32 word)"
    by (simp only: shl5_def)
  also have "\<dots> = wrap32 (h * 32)"
    unfolding wrap32_def by (simp only: int_word_sint) simp
  finally show ?thesis .
qed

lemma hashLoop_foldl:
  "hashLoop str i hash =
     foldl (\<lambda>h c. int (of_char c) + (shl5 h - h)) hash (drop i str)"
proof (induction str i hash rule: hashLoop.induct)
  case (1 str i hash)
  show ?case
  proof (cases "i < length str")
    case True
    then have d: "drop i str = str ! i # drop (i + 1) str"
      by (simp add: Cons_nth_drop_Suc)
    show ?thesis
      using True "1.IH" [OF True]
      by (subst hashLoop.simps) (simp add: d charCodeAt_def)
  next
    case False
    then show ?thesis
      by (subst hashLoop.simps) simp
  qed
qed

text \<open>
  Claim C9: for every string, \<open>stringToHue\<close> is the absolute value, modulo 360, of the
  hash obtained from 0 by the step \<open>hash = charCode + ((hash << 5) - hash)\<close> over the
  characters in order, where the shift wraps \<open>32 * hash\<close> into the signed 32-bit range and
  the subtraction and the addition do not wrap; the result lies in 0 to 359. Being a
  function of the string, it gives the same hue for the same string.
\<close>

theorem stringToHue_hash:
  "stringToHue s = \<bar>foldl (\<lambda>h c. int (of_char c) + (wrap32 (h * 32) - h)) 0 s\<bar> mod 360 \<and>
   0 \<le> stringToHue s \<and> stringToHue s < 360"
proof -
  have "stringToHue s = \<bar>foldl (\<lambda>h c. int (of_char c) + (wrap32 (h * 32) - h)) 0 s\<bar> mod 360"
    by (simp add: stringToHue_def js_rem_def hashLoop_foldl shl5_wrap32 sgn_if)
  then show ?thesis by simp
qed

text \<open>
  Two names evaluated; the hash of the second lies outside the signed 32-bit range,
  since only the shift wraps.
\<close>

lemma stringToHue_sample: "hashLoop ''Ava Patel'' 0 0 = - 845703690 \<and> stringToHue ''Ava Patel'' = 330"
  by code_simp

lemma stringToHue_sample_unwrapped: "hashLoop ''Liam Johnson'' 0 0 = - 3933504016 \<and> stringToHue ''Liam Johnson'' = 16 \<and> stringToHue [] = 0"
  by (simp add: stringToHue_def js_rem_def hashLoop_foldl shl5_wrap32 wrap32_def)


text \<open>
  The hash grows by at most \<open>2^31 + 255\<close> in magnitude with each character, so for strings
  of up to 4194303 characters it stays below \<open>2^53\<close>, where the numbers of JavaScript are
  exact integers.
\<close>

lemma wrap32_bounds: "- (2 ^ 31) \<le> wrap32 x \<and> wrap32 x < 2 ^ 31"
proof -
  have "0 \<le> (x + 2 ^ 31) mod 2 ^ 32" and "(x + 2 ^ 31) mod 2 ^ 32 < (2 ^ 32 :: int)"
    by simp_all
  then show ?thesis
    unfolding wrap32_def by simp
qed

lemma hash_step_magnitude:
  "\<bar>int (of_char c) + (wrap32 (h * 32) - h)\<bar> \<le> \<bar>h\<bar> + (2 ^ 31 + 255)"
proof -
  have "int (of_char c) \<le> 255"
    using nat_of_char_less_256 [of c] by linarith
  then show ?thesis
    using wrap32_bounds [of "h * 32"] by linarith
qed

lemma foldl_hash_magnitude:
  "\<bar>foldl (\<lambda>h c. int (of_char c) + (wrap32 (h * 32) - h)) a s\<bar>
     \<le> \<bar>a\<bar> + int (length s) * (2 ^ 31 + 255)"
proof (induction s arbitrary: a)
  case Nil
  then show ?case by simp
next
  case (Cons c s)
  have "\<bar>foldl (\<lambda>h c. int (of_char c) + (wrap32 (h * 32) - h))
          (int (of_char c) + (wrap32 (a * 32) - a)) s\<bar>
        \<le> \<bar>int (of_char c) + (wrap32 (a * 32) - a)\<bar> + int (length s) * (2 ^ 31 + 255)"
    by (rule Cons.IH)
  also have "\<dots> \<le> (\<bar>a\<bar> + (2 ^ 31 + 255)) + int (length s) * (2 ^ 31 + 255)"
    using hash_step_magnitude [of c a] by linarith
  also have "\<dots> = \<bar>a\<bar> + int (length (c # s)) * (2 ^ 31 + 255)"
    by (simp add: algebra_simps)
  finally show ?case by simp
qed

lemma hashLoop_magnitude:
  "length s \<le> 4194303 \<Longrightarrow> \<bar>hashLoop s 0 0\<bar> < 2 ^ 53"
proof -
  assume len: "length s \<le> 4194303"
  have "\<bar>hashLoop s 0 0\<bar> \<le> int (length s) * (2 ^ 31 + 255)"
    using foldl_hash_magnitude [of 0 s] by (simp add: hashLoop_foldl shl5_wrap32)
  also have "\<dots> \<le> 4194303 * (2 ^ 31 + 255)"
    using len by (intro mult_right_mono) simp_all
  also have "\<dots> < 2 ^ 53" by simp
  finally show ?thesis .
qed

end
